theory Spec2Isabelle
  imports Main "HOL-Library.Word" "HOL-Library.Multiset"
begin

section \<open>The window keyword of the detection engine (detect-window.c)\<close>

text \<open>
  The file implements the rule option \<^verbatim>\<open>window:[!]<size>\<close>: \<^verbatim>\<open>DetectWindowParse\<close> compiles
  the option text into a \<^verbatim>\<open>DetectWindowData\<close>, \<^verbatim>\<open>DetectWindowSetup\<close> hangs it into a
  signature, \<^verbatim>\<open>DetectWindowMatch\<close> compares it with the window of a TCP packet.
  C strings are modelled by the list of their characters before the terminating NUL,
  pointers that may be NULL by \<open>option\<close> (\<open>None\<close> is NULL).
\<close>

subsection \<open>Data\<close>

text \<open>
  Modelled from the spec: \<^verbatim>\<open>detect-window.h\<close>, which declares \<^verbatim>\<open>DetectWindowData\<close> and
  \<^verbatim>\<open>MAX_WINDOW_VALUE\<close>, is not among the sources. The predicate has a negation flag and an
  unsigned threshold; the threshold is taken 32 bits wide, wide enough for every value the
  nine digits of the grammar can denote, as the comparison with \<^verbatim>\<open>MAX_WINDOW_VALUE\<close> in
  \<^verbatim>\<open>DetectWindowParse\<close> and the test \<^verbatim>\<open>DetectWindowTestParse04\<close> presuppose. The field
  \<^verbatim>\<open>size\<close> is called \<open>size_wd\<close> here.
\<close>

record DetectWindowData =
  negated :: "8 word"
  size_wd :: "32 word"

text \<open>Modelled from the spec: the largest value of the 16-bit TCP window field.\<close>

definition MAX_WINDOW_VALUE :: "32 word" where
  "MAX_WINDOW_VALUE = 65535"

text \<open>
  Modelled from the spec: the decoded packet (\<^verbatim>\<open>decode.h\<close> is not among the sources). It
  offers a protocol tag, here the pointer to the decoded TCP header, which is NULL for
  every packet that is not TCP, and for a TCP packet the 16-bit window of that header.
  \<open>th_win\<close> holds the window as \<^verbatim>\<open>TCP_GET_WINDOW\<close> delivers it, in host byte order.
\<close>

record TCPHdr =
  th_sport :: "16 word"
  th_dport :: "16 word"
  th_win :: "16 word"

record Packet =
  tcph :: "TCPHdr option"

definition PKT_IS_TCP :: "'a Packet_scheme \<Rightarrow> bool" where
  "PKT_IS_TCP p \<longleftrightarrow> tcph p \<noteq> None"

definition TCP_GET_WINDOW :: "TCPHdr \<Rightarrow> 16 word" where
  "TCP_GET_WINDOW h = th_win h"

text \<open>
  Modelled from the spec: the generic predicate node \<^verbatim>\<open>{ kind, opaquePredicate }\<close> and the
  rule with its ordered predicate list (\<^verbatim>\<open>detect.h\<close> is not among the sources). Of the
  keyword kinds only \<^verbatim>\<open>DETECT_WINDOW\<close> occurs in this file.
\<close>

datatype keyword = DETECT_WINDOW | DETECT_OTHER nat

record SigMatch =
  type :: keyword
  ctx :: "DetectWindowData option"

record Signature =
  match :: "SigMatch list"

typedecl ThreadVars
typedecl DetectEngineThreadCtx
typedecl DetectEngineCtx

subsection \<open>Memory\<close>

text \<open>
  The functions allocate and release three kinds of blocks: the predicate, the substrings
  that \<^verbatim>\<open>pcre_get_substring\<close> copies out of the option text, and the node of the
  signature. The memory records the blocks that are allocated and not yet released, the
  answers the allocator is going to give to the coming requests (\<open>True\<close>: the request
  fails and \<^verbatim>\<open>malloc\<close> returns NULL; when the list is used up every request is served),
  and the indeterminate contents of a fresh \<^verbatim>\<open>DetectWindowData\<close>.
\<close>

datatype block = WindowDataBlock | SubstringBlock | SigMatchBlock

record memory =
  live :: "block multiset"
  oom :: "bool list"
  junk :: DetectWindowData

definition malloc :: "block \<Rightarrow> memory \<Rightarrow> bool \<times> memory" where
  "malloc b h =
     (case oom h of
        [] \<Rightarrow> (True, h\<lparr>live := add_mset b (live h)\<rparr>)
      | False # rest \<Rightarrow> (True, h\<lparr>live := add_mset b (live h), oom := rest\<rparr>)
      | True # rest \<Rightarrow> (False, h\<lparr>oom := rest\<rparr>))"

definition free :: "block \<Rightarrow> memory \<Rightarrow> memory" where
  "free b h = h\<lparr>live := live h - {#b#}\<rparr>"

text \<open>The allocator serves the next \<open>n\<close> requests.\<close>

definition serves :: "nat \<Rightarrow> memory \<Rightarrow> bool" where
  "serves n h \<longleftrightarrow> True \<notin> set (take n (oom h))"

definition memory0 :: memory where
  "memory0 = \<lparr>live = {#}, oom = [], junk = \<lparr>negated = 0, size_wd = 0\<rparr>\<rparr>"

subsection \<open>The library functions the parser calls\<close>

text \<open>
  \<^verbatim>\<open>atoi\<close> of the C library: white space is skipped, a sign is read, and the digits that
  follow are accumulated in base ten. The result here is the mathematical value; C leaves
  a value beyond \<^verbatim>\<open>int\<close> undefined, which the nine digits the parser passes never reach.
\<close>

definition isspace :: "char \<Rightarrow> bool" where
  "isspace c \<longleftrightarrow>
     c = CHR '' '' \<or> c = CHR 0x09 \<or> c = CHR 0x0A \<or> c = CHR 0x0B \<or> c = CHR 0x0C \<or> c = CHR 0x0D"

definition isdigit :: "char \<Rightarrow> bool" where
  "isdigit c \<longleftrightarrow> 48 \<le> (of_char c :: nat) \<and> (of_char c :: nat) \<le> 57"

fun atoi_digits :: "int \<Rightarrow> string \<Rightarrow> int" where
  "atoi_digits acc [] = acc"
| "atoi_digits acc (c # cs) =
     (if isdigit c then atoi_digits (10 * acc + (of_char c - 48)) cs else acc)"

definition atoi :: "string \<Rightarrow> int" where
  "atoi nptr =
     (case dropWhile isspace nptr of
        [] \<Rightarrow> 0
      | c # cs \<Rightarrow>
          if c = CHR ''-'' then - atoi_digits 0 cs
          else if c = CHR ''+'' then atoi_digits 0 cs
          else atoi_digits 0 (c # cs))"

definition PCRE_ERROR_NOMATCH :: int where
  "PCRE_ERROR_NOMATCH = - 1"

definition PCRE_ERROR_NOMEMORY :: int where
  "PCRE_ERROR_NOMEMORY = - 6"

definition PCRE_ERROR_NOSUBSTRING :: int where
  "PCRE_ERROR_NOSUBSTRING = - 7"

definition MAX_SUBSTRINGS :: int where
  "MAX_SUBSTRINGS = 30"

text \<open>
  The white space class of PCRE (the escape \<^verbatim>\<open>s\<close> of \<^verbatim>\<open>PARSE_REGEX\<close>): space, horizontal
  tab, line feed, vertical tab, form feed and carriage return (the vertical tab since
  PCRE 8.34).
\<close>

definition pcre_space :: "char \<Rightarrow> bool" where
  "pcre_space c \<longleftrightarrow>
     c = CHR '' '' \<or> c = CHR 0x09 \<or> c = CHR 0x0A \<or> c = CHR 0x0B \<or> c = CHR 0x0C \<or> c = CHR 0x0D"

text \<open>
  \<^verbatim>\<open>pcre_exec\<close> on the pattern of line 22, which \<^verbatim>\<open>DetectWindowRegister\<close> has compiled,
  \<^verbatim>\<open>^ s* ([!])? s* ([0-9]{1,9}+) s* $\<close> (each \<^verbatim>\<open>s\<close> the white space escape), from offset 0
  of the subject. The pattern is anchored and its pieces exclude each other (white space,
  the mark, digits), so the match is found without backtracking: white space \<open>w1\<close>, the
  mark \<open>neg\<close> if there is one, white space \<open>w2\<close>, at most nine digits taken possessively,
  white space up to the end of the subject (the newline before which the dollar would
  also match is white space). On a match the result is 3, one more than the number of the
  last group, which always takes part, and the offset vector holds the bounds of the
  match, of group 1 (- 1 twice when the mark is absent) and of group 2. Otherwise the
  result is \<^verbatim>\<open>PCRE_ERROR_NOMATCH\<close> and the vector is not read.
\<close>

definition pcre_exec :: "string \<Rightarrow> int \<times> int list" where
  "pcre_exec subject =
     (let w1 = takeWhile pcre_space subject;
          r1 = dropWhile pcre_space subject;
          neg = (case r1 of [] \<Rightarrow> [] | c # _ \<Rightarrow> if c = CHR ''!'' then [c] else []);
          r2 = drop (length neg) r1;
          w2 = takeWhile pcre_space r2;
          r3 = dropWhile pcre_space r2;
          digits = takeWhile isdigit (take 9 r3);
          r4 = drop (length digits) r3;
          r5 = dropWhile pcre_space r4;
          o1 = int (length w1);
          o2 = o1 + int (length neg) + int (length w2)
      in if digits \<noteq> [] \<and> r5 = []
         then (3, [0, int (length subject),
                   if neg = [] then - 1 else o1, if neg = [] then - 1 else o1 + 1,
                   o2, o2 + int (length digits)])
         else (PCRE_ERROR_NOMATCH, []))"

text \<open>
  \<^verbatim>\<open>pcre_get_substring\<close>: a fresh copy of the subject between the two offsets of the group,
  empty for a group that did not take part, with its length as result; a negative
  result when the group number is out of range or the copy cannot be allocated.
\<close>

definition pcre_get_substring ::
  "string \<Rightarrow> int list \<Rightarrow> int \<Rightarrow> int \<Rightarrow> memory \<Rightarrow> (int \<times> string) \<times> memory" where
  "pcre_get_substring subject ovector stringcount stringnumber h =
     (if stringnumber < 0 \<or> stringnumber \<ge> stringcount
      then ((PCRE_ERROR_NOSUBSTRING, []), h)
      else
        let start = ovector ! nat (2 * stringnumber);
            yield = ovector ! nat (2 * stringnumber + 1) - start
        in case malloc SubstringBlock h of
             (False, h') \<Rightarrow> ((PCRE_ERROR_NOMEMORY, []), h')
           | (True, h') \<Rightarrow> ((yield, take (nat yield) (drop (nat start) subject)), h'))"

subsection \<open>DetectWindowMatch\<close>

text \<open>
  Lines 81 to 107. \<^verbatim>\<open>ret\<close> starts as 0; with a context, a packet that is not TCP returns 0
  at once, and a TCP packet sets \<^verbatim>\<open>ret\<close> to 1 when the sizes are equal and the predicate is
  not negated, or differ and it is. The comparison is between the 32-bit threshold and the
  16-bit window, which C widens without changing its value. The thread variables, the
  thread context and the signature are not read.
\<close>

definition DetectWindowMatch ::
  "ThreadVars option \<Rightarrow> DetectEngineThreadCtx option \<Rightarrow> 'a Packet_scheme \<Rightarrow>
   'b Signature_scheme option \<Rightarrow> 'c SigMatch_scheme \<Rightarrow> int" where
  "DetectWindowMatch t det_ctx p s m =
     (case ctx m of
        None \<Rightarrow> 0
      | Some wd \<Rightarrow>
          (case tcph p of
             None \<Rightarrow> 0
           | Some h \<Rightarrow>
               if (\<not> (negated wd \<noteq> 0) \<and> size_wd wd = ucast (TCP_GET_WINDOW h)) \<or>
                  (negated wd \<noteq> 0 \<and> size_wd wd \<noteq> ucast (TCP_GET_WINDOW h))
               then 1 else 0))"

subsection \<open>DetectWindowFree and DetectWindowParse\<close>

text \<open>Lines 238 to 241: \<^verbatim>\<open>free\<close> of the predicate; \<^verbatim>\<open>free(NULL)\<close> does nothing.\<close>

definition DetectWindowFree :: "DetectWindowData option \<Rightarrow> memory \<Rightarrow> memory" where
  "DetectWindowFree ptr h = (case ptr of None \<Rightarrow> h | Some wd \<Rightarrow> free WindowDataBlock h)"

text \<open>
  \<^verbatim>\<open>DetectWindowParse\<close> leaves through \<^verbatim>\<open>goto error\<close> at four places, all of which end in
  \<^verbatim>\<open>return NULL\<close>. The model names the place: the pattern did not match (line 130), the
  predicate could not be allocated (line 136), a substring could not be extracted (lines
  145 and 163), the size exceeds \<^verbatim>\<open>MAX_WINDOW_VALUE\<close> (line 170).
\<close>

datatype parse_exit = RegexNoMatch | MallocFailed | SubstringFailed | SizeExceedsMax

text \<open>
  The loop of lines 180 and 186 over \<^verbatim>\<open>args[0]\<close> to \<^verbatim>\<open>args[ret - 2]\<close>, releasing the
  entries that are not NULL.
\<close>

fun free_args :: "string option list \<Rightarrow> memory \<Rightarrow> memory" where
  "free_args [] h = h"
| "free_args (None # args) h = free_args args h"
| "free_args (Some s # args) h = free_args args (free SubstringBlock h)"

text \<open>The label \<^verbatim>\<open>error\<close>, lines 185 to 190, and the regular return, lines 179 to 183.\<close>

definition parse_error ::
  "parse_exit \<Rightarrow> int \<Rightarrow> string option list \<Rightarrow> DetectWindowData option \<Rightarrow> memory \<Rightarrow>
   (parse_exit + DetectWindowData) \<times> memory" where
  "parse_error e ret args wd h =
     (Inl e, DetectWindowFree wd (free_args (take (nat (ret - 1)) args) h))"

definition parse_return ::
  "int \<Rightarrow> string option list \<Rightarrow> DetectWindowData \<Rightarrow> memory \<Rightarrow>
   (parse_exit + DetectWindowData) \<times> memory" where
  "parse_return ret args wd h = (Inr wd, free_args (take (nat (ret - 1)) args) h)"

text \<open>\<^verbatim>\<open>args[0][0]\<close>: the first character of a C string, the terminator when it is empty.\<close>

definition first_char :: "string \<Rightarrow> char" where
  "first_char s = (case s of [] \<Rightarrow> CHR 0x00 | c # _ \<Rightarrow> c)"

text \<open>
  Lines 117 to 192, with the place of the exit kept. The second substring is assigned to
  \<^verbatim>\<open>str_ptr\<close> only, not to \<^verbatim>\<open>args\<close>, so the loops do not release it.
\<close>

definition DetectWindowParse_exit ::
  "string \<Rightarrow> memory \<Rightarrow> (parse_exit + DetectWindowData) \<times> memory" where
  "DetectWindowParse_exit windowstr h0 =
     (let (ret, ov) = pcre_exec windowstr;
          args = [None, None, None]
      in if ret < 1 \<or> ret > 3 then parse_error RegexNoMatch ret args None h0
         else
           case malloc WindowDataBlock h0 of
             (False, h1) \<Rightarrow> parse_error MallocFailed ret args None h1
           | (True, h1) \<Rightarrow>
               let wd = junk h1
               in if ret > 1 then
                    case pcre_get_substring windowstr ov MAX_SUBSTRINGS 1 h1 of
                      ((res, str_ptr), h2) \<Rightarrow>
                        if res < 0 then parse_error SubstringFailed ret args (Some wd) h2
                        else
                          let args = args[0 := Some str_ptr];
                              wd = (if first_char str_ptr = CHR ''!''
                                    then wd\<lparr>negated := 1\<rparr> else wd\<lparr>negated := 0\<rparr>)
                          in if ret > 2 then
                               case pcre_get_substring windowstr ov MAX_SUBSTRINGS 2 h2 of
                                 ((res, str_ptr), h3) \<Rightarrow>
                                   if res < 0 then parse_error SubstringFailed ret args (Some wd) h3
                                   else
                                     let wd = wd\<lparr>size_wd := word_of_int (atoi str_ptr)\<rparr>
                                     in if size_wd wd > MAX_WINDOW_VALUE
                                        then parse_error SizeExceedsMax ret args (Some wd) h3
                                        else parse_return ret args wd h3
                             else parse_return ret args wd h2
                  else parse_return ret args wd h1)"

text \<open>What the caller of \<^verbatim>\<open>DetectWindowParse\<close> receives: the predicate, or NULL.\<close>

definition DetectWindowParse :: "string \<Rightarrow> memory \<Rightarrow> DetectWindowData option \<times> memory" where
  "DetectWindowParse windowstr h =
     (case DetectWindowParse_exit windowstr h of
        (Inl e, h') \<Rightarrow> (None, h')
      | (Inr wd, h') \<Rightarrow> (Some wd, h'))"

subsection \<open>DetectWindowSetup\<close>

text \<open>
  Modelled from the spec: \<^verbatim>\<open>SigMatchAlloc\<close> and \<^verbatim>\<open>SigMatchAppend\<close> are defined outside this
  file. The first allocates an empty node, or returns NULL; the second appends the node
  to the predicate sequence of the rule, after the nodes that are there.
\<close>

definition SigMatchAlloc :: "memory \<Rightarrow> SigMatch option \<times> memory" where
  "SigMatchAlloc h =
     (case malloc SigMatchBlock h of
        (False, h') \<Rightarrow> (None, h')
      | (True, h') \<Rightarrow> (Some \<lparr>type = DETECT_OTHER 0, ctx = None\<rparr>, h'))"

definition SigMatchAppend :: "Signature \<Rightarrow> SigMatch option \<Rightarrow> SigMatch \<Rightarrow> Signature" where
  "SigMatchAppend s m new = s\<lparr>match := match s @ [new]\<rparr>"

text \<open>The label \<^verbatim>\<open>error\<close> of \<^verbatim>\<open>DetectWindowSetup\<close>, lines 226 to 229.\<close>

definition setup_error ::
  "Signature \<Rightarrow> DetectWindowData option \<Rightarrow> SigMatch option \<Rightarrow> memory \<Rightarrow>
   int \<times> Signature \<times> memory" where
  "setup_error s wd sm h =
     (let h' = (if wd \<noteq> None then DetectWindowFree wd h else h);
          h'' = (if sm \<noteq> None then free SigMatchBlock h' else h')
      in (- 1, s, h''))"

text \<open>Lines 205 to 231. The result is the return value, the signature and the memory.\<close>

definition DetectWindowSetup ::
  "DetectEngineCtx option \<Rightarrow> Signature \<Rightarrow> SigMatch option \<Rightarrow> string \<Rightarrow> memory \<Rightarrow>
   int \<times> Signature \<times> memory" where
  "DetectWindowSetup de_ctx s m windowstr h0 =
     (case DetectWindowParse windowstr h0 of
        (None, h1) \<Rightarrow> setup_error s None None h1
      | (Some wd, h1) \<Rightarrow>
          (case SigMatchAlloc h1 of
             (None, h2) \<Rightarrow> setup_error s (Some wd) None h2
           | (Some sm, h2) \<Rightarrow>
               (0, SigMatchAppend s m (sm\<lparr>type := DETECT_WINDOW, ctx := Some wd\<rparr>), h2)))"

subsection \<open>The grammar and the values of the specification\<close>

text \<open>
  The value of a digit string, and the grammar
  \<^verbatim>\<open>window-option := ws* negation? ws* digits ws*\<close> with one to nine digits, for a given
  class \<open>ws\<close> of white space characters.
\<close>

definition decimal_value :: "string \<Rightarrow> nat" where
  "decimal_value d = foldl (\<lambda>v c. 10 * v + (of_char c - 48)) 0 d"

definition window_option :: "(char \<Rightarrow> bool) \<Rightarrow> string \<Rightarrow> bool" where
  "window_option ws s \<longleftrightarrow>
     (\<exists>ws1 neg ws2 digits ws3.
        s = ws1 @ neg @ ws2 @ digits @ ws3 \<and>
        list_all ws ws1 \<and> (neg = [] \<or> neg = ''!'') \<and> list_all ws ws2 \<and>
        list_all isdigit digits \<and> 1 \<le> length digits \<and> length digits \<le> 9 \<and>
        list_all ws ws3)"

text \<open>The white space of the grammar read to the letter: the space character alone.\<close>

definition space_only :: "char \<Rightarrow> bool" where
  "space_only c \<longleftrightarrow> c = CHR '' ''"

section \<open>Auxiliary facts\<close>

subsection \<open>The allocator\<close>

lemma malloc_result:
  assumes "malloc b h = (ok, h')"
  shows "junk h' = junk h" and "live h' = (if ok then add_mset b (live h) else live h)"
  using assms by (auto simp: malloc_def split: list.splits bool.splits)

lemma malloc_serves:
  assumes "serves (Suc n) h"
  shows "\<exists>h'. malloc b h = (True, h') \<and> serves n h'"
proof (cases "oom h")
  case Nil
  then show ?thesis by (simp add: malloc_def serves_def)
next
  case (Cons x rest)
  with assms have "\<not> x" and "True \<notin> set (take n rest)" by (auto simp: serves_def)
  with Cons show ?thesis by (simp add: malloc_def serves_def)
qed

lemma malloc_served:
  assumes "serves n h" and "0 < n"
  shows "\<exists>h'. malloc b h = (True, h') \<and> serves (n - 1) h'"
proof -
  from assms(2) obtain k where "n = Suc k" by (cases n) auto
  with assms(1) malloc_serves [of k h b] show ?thesis by simp
qed

subsection \<open>Characters and digit strings\<close>

lemma isdigit_not_space: "isdigit c \<Longrightarrow> \<not> pcre_space c"
  by (auto simp: isdigit_def pcre_space_def)

lemma isdigit_not_isspace: "isdigit c \<Longrightarrow> \<not> isspace c"
  by (auto simp: isdigit_def isspace_def)

lemma isdigit_not_bang: "isdigit c \<Longrightarrow> c \<noteq> CHR ''!''"
  by (auto simp: isdigit_def)

lemma isdigit_not_sign: "isdigit c \<Longrightarrow> c \<noteq> CHR ''-'' \<and> c \<noteq> CHR ''+''"
  by (auto simp: isdigit_def)

lemma bang_not_space: "\<not> pcre_space CHR ''!''"
  by (simp add: pcre_space_def)

lemma digit_int:
  assumes "isdigit c"
  shows "(of_char c :: int) - 48 = int ((of_char c :: nat) - 48)"
proof -
  have "48 \<le> (of_char c :: nat)" using assms by (simp add: isdigit_def)
  then have "int ((of_char c :: nat) - 48) = int (of_char c) - 48" by simp
  also have "int (of_char c) = (of_char c :: int)" by (rule of_nat_of_char)
  finally show ?thesis by simp
qed

lemma atoi_digits_foldl:
  "list_all isdigit d \<Longrightarrow>
   atoi_digits (int a) d = int (foldl (\<lambda>v c. 10 * v + (of_char c - 48)) a d)"
proof (induction d arbitrary: a)
  case Nil
  show ?case by simp
next
  case (Cons c cs)
  then have c: "isdigit c" and cs: "list_all isdigit cs" by simp_all
  have "10 * int a + ((of_char c :: int) - 48) = int (10 * a + ((of_char c :: nat) - 48))"
    by (simp add: digit_int [OF c])
  with Cons.IH [OF cs, of "10 * a + ((of_char c :: nat) - 48)"] c show ?case by simp
qed

lemma atoi_digit_string:
  assumes "list_all isdigit d"
  shows "atoi d = int (decimal_value d)"
proof (cases d)
  case Nil
  then show ?thesis by (simp add: atoi_def decimal_value_def)
next
  case (Cons c cs)
  with assms have c: "isdigit c" by simp
  have "atoi d = atoi_digits 0 d"
    using c isdigit_not_sign [OF c] isdigit_not_isspace [OF c] by (simp add: atoi_def Cons)
  also have "\<dots> = int (decimal_value d)"
    using atoi_digits_foldl [OF assms, of 0] by (simp add: decimal_value_def)
  finally show ?thesis .
qed

lemma decimal_value_snoc:
  "decimal_value (d @ [c]) = 10 * decimal_value d + (of_char c - 48)"
  by (simp add: decimal_value_def)

lemma decimal_value_less:
  "list_all isdigit d \<Longrightarrow> decimal_value d < 10 ^ length d"
proof (induction d rule: rev_induct)
  case Nil
  show ?case by (simp add: decimal_value_def)
next
  case (snoc c d)
  then have "decimal_value d < 10 ^ length d" and c: "isdigit c" by simp_all
  then have "decimal_value d + 1 \<le> 10 ^ length d" by simp
  then have "10 * (decimal_value d + 1) \<le> 10 * 10 ^ length d" by (rule mult_le_mono2)
  moreover have "(of_char c :: nat) - 48 \<le> 9" using c unfolding isdigit_def by arith
  ultimately show ?case by (simp add: decimal_value_snoc)
qed

lemma decimal_value_nine_digits:
  assumes "list_all isdigit d" and "length d \<le> 9"
  shows "decimal_value d < 1000000000"
proof -
  have "decimal_value d < 10 ^ length d" using assms(1) by (rule decimal_value_less)
  also have "(10::nat) ^ length d \<le> 10 ^ 9" using assms(2) by (intro power_increasing) simp_all
  finally show ?thesis by simp
qed

lemma size_of_digits:
  assumes "list_all isdigit d" and "length d \<le> 9"
  shows "unat (word_of_int (atoi d) :: 32 word) = decimal_value d"
proof -
  have "decimal_value d < 1000000000" using assms by (rule decimal_value_nine_digits)
  then have lt: "decimal_value d < 2 ^ 32" by simp
  have "(word_of_int (atoi d) :: 32 word) = of_nat (decimal_value d)"
    by (simp add: atoi_digit_string [OF assms(1)])
  then show ?thesis using lt by (simp add: unsigned_of_nat take_bit_nat_eq_self)
qed

lemma exceeds_max_iff:
  "(w :: 32 word) > MAX_WINDOW_VALUE \<longleftrightarrow> unat w > 65535"
  by (simp add: MAX_WINDOW_VALUE_def word_less_nat_alt)

subsection \<open>The pattern\<close>

lemma takeWhile_take_prefix:
  "takeWhile P (take n xs) @ drop (length (takeWhile P (take n xs))) xs = xs"
proof -
  define k where "k = length (takeWhile P (take n xs))"
  have "k \<le> length (take n xs)" unfolding k_def by (rule length_takeWhile_le)
  then have k: "k \<le> n" by simp
  have "takeWhile P (take n xs) = take k (take n xs)"
    unfolding k_def by (rule takeWhile_eq_take)
  also have "\<dots> = take k xs" using k by (simp add: min_def)
  finally have "takeWhile P (take n xs) = take k xs" .
  then have "takeWhile P (take n xs) @ drop k xs = xs" by simp
  then show ?thesis unfolding k_def .
qed

lemma pcre_exec_cases:
  obtains (nomatch) "pcre_exec s = (PCRE_ERROR_NOMATCH, [])"
  | (match) w1 neg w2 digits w3 where
      "s = w1 @ neg @ w2 @ digits @ w3"
      "list_all pcre_space w1" "neg = [] \<or> neg = ''!''" "list_all pcre_space w2"
      "list_all isdigit digits" "digits \<noteq> []" "length digits \<le> 9" "list_all pcre_space w3"
      "pcre_exec s =
         (3, [0, int (length s),
              if neg = [] then - 1 else int (length w1),
              if neg = [] then - 1 else int (length w1) + 1,
              int (length w1) + int (length neg) + int (length w2),
              int (length w1) + int (length neg) + int (length w2) + int (length digits)])"
proof -
  define w1 where "w1 = takeWhile pcre_space s"
  define r1 where "r1 = dropWhile pcre_space s"
  define neg where "neg = (case r1 of [] \<Rightarrow> [] | c # _ \<Rightarrow> if c = CHR ''!'' then [c] else [])"
  define r2 where "r2 = drop (length neg) r1"
  define w2 where "w2 = takeWhile pcre_space r2"
  define r3 where "r3 = dropWhile pcre_space r2"
  define digits where "digits = takeWhile isdigit (take 9 r3)"
  define r4 where "r4 = drop (length digits) r3"
  define r5 where "r5 = dropWhile pcre_space r4"
  have ex: "pcre_exec s =
      (if digits \<noteq> [] \<and> r5 = []
       then (3, [0, int (length s),
              if neg = [] then - 1 else int (length w1),
              if neg = [] then - 1 else int (length w1) + 1,
              int (length w1) + int (length neg) + int (length w2),
              int (length w1) + int (length neg) + int (length w2) + int (length digits)])
       else (PCRE_ERROR_NOMATCH, []))"
    unfolding pcre_exec_def Let_def r5_def r4_def digits_def r3_def w2_def r2_def neg_def r1_def w1_def
    by (rule refl)
  show thesis
  proof (cases "digits \<noteq> [] \<and> r5 = []")
    case False
    with ex have "pcre_exec s = (PCRE_ERROR_NOMATCH, [])" by simp
    then show thesis by (rule nomatch)
  next
    case True
    have s1: "s = w1 @ r1" unfolding w1_def r1_def by simp
    have neg: "neg = [] \<or> neg = ''!''"
      unfolding neg_def by (cases r1) auto
    have s2: "r1 = neg @ r2"
      unfolding r2_def neg_def by (cases r1) auto
    have s3: "r2 = w2 @ r3" unfolding w2_def r3_def by simp
    have s4: "r3 = digits @ r4"
      unfolding digits_def r4_def by (rule takeWhile_take_prefix [symmetric])
    from True have "dropWhile pcre_space r4 = []" by (simp add: r5_def)
    then have w3: "list_all pcre_space r4"
      by (simp add: dropWhile_eq_Nil_conv list_all_iff)
    have dg: "list_all isdigit digits"
      unfolding digits_def list_all_iff by (auto dest: set_takeWhileD)
    have "length digits \<le> length (take 9 r3)"
      unfolding digits_def by (rule length_takeWhile_le)
    then have len: "length digits \<le> 9" by simp
    have ws1: "list_all pcre_space w1"
      unfolding w1_def list_all_iff by (auto dest: set_takeWhileD)
    have ws2: "list_all pcre_space w2"
      unfolding w2_def list_all_iff by (auto dest: set_takeWhileD)
    have "s = w1 @ neg @ w2 @ digits @ r4"
      using s1 s2 s3 s4 by simp
    moreover from ex True have "pcre_exec s =
         (3, [0, int (length s),
              if neg = [] then - 1 else int (length w1),
              if neg = [] then - 1 else int (length w1) + 1,
              int (length w1) + int (length neg) + int (length w2),
              int (length w1) + int (length neg) + int (length w2) + int (length digits)])"
      by simp
    ultimately show thesis
      using ws1 neg ws2 dg True len w3 by (intro match [of w1 neg w2 digits r4]) simp_all
  qed
qed

lemma spaces_then_other:
  assumes "list_all pcre_space w" and "rest = [] \<or> \<not> pcre_space (hd rest)"
  shows "takeWhile pcre_space (w @ rest) = w" and "dropWhile pcre_space (w @ rest) = rest"
proof -
  have all: "\<forall>x \<in> set w. pcre_space x" using assms(1) by (simp add: list_all_iff)
  have "takeWhile pcre_space rest = []" "dropWhile pcre_space rest = rest"
    using assms(2) by (cases rest; simp)+
  then show "takeWhile pcre_space (w @ rest) = w" "dropWhile pcre_space (w @ rest) = rest"
    using all by (simp_all add: takeWhile_append2 dropWhile_append2)
qed

lemma digits_then_spaces:
  assumes "list_all isdigit ds" and "length ds \<le> 9" and "list_all pcre_space w"
  shows "takeWhile isdigit (take 9 (ds @ w)) = ds"
proof -
  have all: "\<forall>x \<in> set ds. isdigit x" using assms(1) by (simp add: list_all_iff)
  have sp: "\<forall>x \<in> set (take (9 - length ds) w). \<not> isdigit x"
    using assms(3) by (auto simp: list_all_iff dest!: in_set_takeD isdigit_not_space)
  have "takeWhile isdigit (take (9 - length ds) w) = []"
    using sp by (cases "take (9 - length ds) w") auto
  moreover have "take 9 (ds @ w) = ds @ take (9 - length ds) w" using assms(2) by simp
  ultimately show ?thesis using all by (simp add: takeWhile_append2)
qed

lemma pcre_exec_complete:
  assumes s: "s = w1 @ neg @ w2 @ digits @ w3"
    and w1: "list_all pcre_space w1" and neg: "neg = [] \<or> neg = ''!''"
    and w2: "list_all pcre_space w2"
    and dg: "list_all isdigit digits" and ne: "digits \<noteq> []" and len: "length digits \<le> 9"
    and w3: "list_all pcre_space w3"
  shows "pcre_exec s =
         (3, [0, int (length s),
              if neg = [] then - 1 else int (length w1),
              if neg = [] then - 1 else int (length w1) + 1,
              int (length w1) + int (length neg) + int (length w2),
              int (length w1) + int (length neg) + int (length w2) + int (length digits)])"
proof -
  from ne dg have hd_dg: "digits @ w3 = [] \<or> \<not> pcre_space (hd (digits @ w3))"
    by (cases digits) (auto dest: isdigit_not_space)
  from ne dg have hd_bang: "hd (digits @ w3) \<noteq> CHR ''!''"
    by (cases digits) (auto dest: isdigit_not_bang)
  have t3: "takeWhile isdigit (take 9 (digits @ w3)) = digits"
    using dg len w3 by (rule digits_then_spaces)
  have r5: "dropWhile pcre_space w3 = []"
    using w3 by (simp add: list_all_iff)
  have e: "drop (length digits) (digits @ w3) = w3" by simp
  from neg show ?thesis
  proof
    assume n: "neg = []"
    have w: "list_all pcre_space (w1 @ w2)" using w1 w2 by simp
    have s': "s = (w1 @ w2) @ (digits @ w3)" using s n by simp
    note a = spaces_then_other [OF w hd_dg, folded s']
    have b: "(case digits @ w3 of [] \<Rightarrow> [] | c # _ \<Rightarrow> if c = CHR ''!'' then [c] else []) = []"
      using hd_bang ne by (cases digits) auto
    have c: "takeWhile pcre_space (digits @ w3) = []"
      "dropWhile pcre_space (digits @ w3) = digits @ w3"
      using ne dg by (cases digits; auto dest: isdigit_not_space)+
    have d: "drop (length ([] :: string)) (digits @ w3) = digits @ w3" by simp
    show ?thesis
      unfolding pcre_exec_def Let_def a b d c t3 e r5
      by (simp add: ne n)
  next
    assume n: "neg = ''!''"
    have s': "s = w1 @ (CHR ''!'' # w2 @ digits @ w3)" using s n by simp
    have "CHR ''!'' # w2 @ digits @ w3 = [] \<or> \<not> pcre_space (hd (CHR ''!'' # w2 @ digits @ w3))"
      by (simp add: bang_not_space)
    note a = spaces_then_other [OF w1 this, folded s']
    note c = spaces_then_other [OF w2 hd_dg]
    have b: "(case CHR ''!'' # w2 @ digits @ w3 of [] \<Rightarrow> []
              | c # _ \<Rightarrow> if c = CHR ''!'' then [c] else []) = ''!''"
      by simp
    have d: "drop (length ''!'') (CHR ''!'' # w2 @ digits @ w3) = w2 @ digits @ w3" by simp
    show ?thesis
      unfolding pcre_exec_def Let_def a b d c t3 e r5
      by (simp add: ne n)
  qed
qed

subsection \<open>The runs of DetectWindowParse\<close>

lemma free_args_all_None: "\<forall>a \<in> set args. a = None \<Longrightarrow> free_args args h = h"
  by (induction args h rule: free_args.induct) auto

lemma free_args_none: "free_args (take n [None, None, None]) h = h"
  by (rule free_args_all_None) (auto dest: in_set_takeD)

lemma parse_nomatch:
  assumes "pcre_exec s = (PCRE_ERROR_NOMATCH, ov)"
  shows "DetectWindowParse_exit s h = (Inl RegexNoMatch, h)"
  using assms
  by (simp add: DetectWindowParse_exit_def PCRE_ERROR_NOMATCH_def parse_error_def
        DetectWindowFree_def)

lemma full_update:
  "(if c then wd\<lparr>negated := 1\<rparr> else wd\<lparr>negated := 0\<rparr>)\<lparr>size_wd := v\<rparr>
     = \<lparr>negated = (if c then 1 else 0), size_wd = v\<rparr>"
  by (cases wd) simp

lemma substring_neg:
  assumes "s = w1 @ neg @ rest" and "neg = [] \<or> neg = ''!''"
  shows "take (nat ((if neg = [] then - 1 else int (length w1) + 1) - (if neg = [] then - 1 else int (length w1))))
           (drop (nat (if neg = [] then - 1 else int (length w1))) s) = neg"
  using assms by auto

lemma substring_digits:
  assumes "s = w1 @ neg @ w2 @ digits @ w3"
  shows "take (nat (int (length w1) + int (length neg) + int (length w2) + int (length digits)
                    - (int (length w1) + int (length neg) + int (length w2))))
           (drop (nat (int (length w1) + int (length neg) + int (length w2))) s) = digits"
proof -
  have "nat (int (length w1) + int (length neg) + int (length w2)) = length (w1 @ neg @ w2)"
    by simp
  moreover have "s = (w1 @ neg @ w2) @ digits @ w3" using assms by simp
  ultimately have "drop (nat (int (length w1) + int (length neg) + int (length w2))) s = digits @ w3"
    by (simp only: append_eq_conv_conj drop_append) simp
  then show ?thesis by simp
qed

lemma first_char_neg:
  assumes "neg = [] \<or> neg = ''!''"
  shows "first_char neg = CHR ''!'' \<longleftrightarrow> neg \<noteq> []"
  using assms by (auto simp: first_char_def)

lemma parse_match:
  assumes s: "s = w1 @ neg @ w2 @ digits @ w3" and neg: "neg = [] \<or> neg = ''!''"
    and ex: "pcre_exec s =
         (3, [0, int (length s),
              if neg = [] then - 1 else int (length w1),
              if neg = [] then - 1 else int (length w1) + 1,
              int (length w1) + int (length neg) + int (length w2),
              int (length w1) + int (length neg) + int (length w2) + int (length digits)])"
  shows "DetectWindowParse_exit s h0 =
     (case malloc WindowDataBlock h0 of
        (False, h1) \<Rightarrow> (Inl MallocFailed, h1)
      | (True, h1) \<Rightarrow>
          (case malloc SubstringBlock h1 of
             (False, h2) \<Rightarrow> (Inl SubstringFailed, free WindowDataBlock h2)
           | (True, h2) \<Rightarrow>
               (case malloc SubstringBlock h2 of
                  (False, h3) \<Rightarrow>
                    (Inl SubstringFailed, free WindowDataBlock (free SubstringBlock h3))
                | (True, h3) \<Rightarrow>
                    if (word_of_int (atoi digits) :: 32 word) > MAX_WINDOW_VALUE
                    then (Inl SizeExceedsMax, free WindowDataBlock (free SubstringBlock h3))
                    else (Inr \<lparr>negated = (if neg = [] then 0 else 1),
                                size_wd = word_of_int (atoi digits)\<rparr>,
                          free SubstringBlock h3))))"
proof -
  obtain ok1 h1 where m1: "malloc WindowDataBlock h0 = (ok1, h1)" by (cases "malloc WindowDataBlock h0")
  obtain ok2 h2 where m2: "malloc SubstringBlock h1 = (ok2, h2)" by (cases "malloc SubstringBlock h1")
  obtain ok3 h3 where m3: "malloc SubstringBlock h2 = (ok3, h3)" by (cases "malloc SubstringBlock h2")
  define ov where "ov = [0, int (length s),
              if neg = [] then - 1 else int (length w1),
              if neg = [] then - 1 else int (length w1) + 1,
              int (length w1) + int (length neg) + int (length w2),
              int (length w1) + int (length neg) + int (length w2) + int (length digits)]"
  have ex': "pcre_exec s = (3, ov)" unfolding ov_def by (rule ex)
  have s': "s = w1 @ neg @ (w2 @ digits @ w3)" using s by simp
  note sub1 = substring_neg [OF s' neg]
  note sub2 = substring_digits [OF s]
  have g1: "pcre_get_substring s ov MAX_SUBSTRINGS 1 h1 =
            (if ok2 then ((int (length neg), neg), h2) else ((PCRE_ERROR_NOMEMORY, []), h2))"
    unfolding ov_def
    using neg sub1 by (auto simp add: pcre_get_substring_def MAX_SUBSTRINGS_def m2)
  have g2: "pcre_get_substring s ov MAX_SUBSTRINGS 2 h2 =
            (if ok3 then ((int (length digits), digits), h3) else ((PCRE_ERROR_NOMEMORY, []), h3))"
    unfolding ov_def
    using sub2 by (simp add: pcre_get_substring_def MAX_SUBSTRINGS_def m3)
  have args: "free_args (take 2 ([None, None, None][0 := Some x])) h
                = free SubstringBlock h" for h x
    by (simp add: numeral_2_eq_2)
  show ?thesis
    unfolding DetectWindowParse_exit_def ex'
    by (cases ok1; cases ok2; cases ok3)
       (simp_all add: Let_def m1 m2 m3 g1 g2 PCRE_ERROR_NOMEMORY_def parse_error_def
          parse_return_def DetectWindowFree_def free_args_none args first_char_neg [OF neg] full_update
          del: list_update.simps)
qed

lemma parse_grammatical:
  assumes "s = w1 @ neg @ w2 @ digits @ w3"
    and "list_all pcre_space w1" and "neg = [] \<or> neg = ''!''"
    and "list_all pcre_space w2"
    and "list_all isdigit digits" and "digits \<noteq> []" and "length digits \<le> 9"
    and "list_all pcre_space w3"
  shows "DetectWindowParse_exit s h0 =
     (case malloc WindowDataBlock h0 of
        (False, h1) \<Rightarrow> (Inl MallocFailed, h1)
      | (True, h1) \<Rightarrow>
          (case malloc SubstringBlock h1 of
             (False, h2) \<Rightarrow> (Inl SubstringFailed, free WindowDataBlock h2)
           | (True, h2) \<Rightarrow>
               (case malloc SubstringBlock h2 of
                  (False, h3) \<Rightarrow>
                    (Inl SubstringFailed, free WindowDataBlock (free SubstringBlock h3))
                | (True, h3) \<Rightarrow>
                    if (word_of_int (atoi digits) :: 32 word) > MAX_WINDOW_VALUE
                    then (Inl SizeExceedsMax, free WindowDataBlock (free SubstringBlock h3))
                    else (Inr \<lparr>negated = (if neg = [] then 0 else 1),
                                size_wd = word_of_int (atoi digits)\<rparr>,
                          free SubstringBlock h3))))"
  by (rule parse_match [OF assms(1,3) pcre_exec_complete [OF assms]])

lemma parse_grammatical_served:
  assumes "s = w1 @ neg @ w2 @ digits @ w3"
    and "list_all pcre_space w1" and "neg = [] \<or> neg = ''!''"
    and "list_all pcre_space w2"
    and "list_all isdigit digits" and "digits \<noteq> []" and "length digits \<le> 9"
    and "list_all pcre_space w3"
    and "serves 3 h0"
  shows "fst (DetectWindowParse_exit s h0) =
           (if 65535 < decimal_value digits then Inl SizeExceedsMax
            else Inr \<lparr>negated = (if neg = [] then 0 else 1),
                      size_wd = word_of_nat (decimal_value digits)\<rparr>)"
proof -
  from malloc_served [OF assms(9), of WindowDataBlock]
  obtain h1 where m1: "malloc WindowDataBlock h0 = (True, h1)" and s1: "serves 2 h1" by auto
  from malloc_served [OF s1, of SubstringBlock]
  obtain h2 where m2: "malloc SubstringBlock h1 = (True, h2)" and s2: "serves 1 h2" by auto
  from malloc_served [OF s2, of SubstringBlock]
  obtain h3 where m3: "malloc SubstringBlock h2 = (True, h3)" by auto
  have v: "unat (word_of_int (atoi digits) :: 32 word) = decimal_value digits"
    using assms(5,7) by (rule size_of_digits)
  have w: "(word_of_int (atoi digits) :: 32 word) = word_of_nat (decimal_value digits)"
    by (simp add: atoi_digit_string [OF assms(5)])
  show ?thesis
    unfolding parse_grammatical [OF assms(1-8)]
    using v by (simp add: m1 m2 m3 exceeds_max_iff) (simp add: w)
qed

lemma parse_cases:
  obtains (nomatch) "\<not> window_option pcre_space s" "DetectWindowParse_exit s h = (Inl RegexNoMatch, h)"
  | (oom1) h1 where "window_option pcre_space s" "malloc WindowDataBlock h = (False, h1)"
      "DetectWindowParse_exit s h = (Inl MallocFailed, h1)"
  | (oom2) h1 h2 where "window_option pcre_space s" "malloc WindowDataBlock h = (True, h1)"
      "malloc SubstringBlock h1 = (False, h2)"
      "DetectWindowParse_exit s h = (Inl SubstringFailed, free WindowDataBlock h2)"
  | (oom3) h1 h2 h3 where "window_option pcre_space s" "malloc WindowDataBlock h = (True, h1)"
      "malloc SubstringBlock h1 = (True, h2)" "malloc SubstringBlock h2 = (False, h3)"
      "DetectWindowParse_exit s h = (Inl SubstringFailed, free WindowDataBlock (free SubstringBlock h3))"
  | (large) h1 h2 h3 where "window_option pcre_space s" "malloc WindowDataBlock h = (True, h1)"
      "malloc SubstringBlock h1 = (True, h2)" "malloc SubstringBlock h2 = (True, h3)"
      "DetectWindowParse_exit s h = (Inl SizeExceedsMax, free WindowDataBlock (free SubstringBlock h3))"
  | (ok) h1 h2 h3 wd where "window_option pcre_space s" "malloc WindowDataBlock h = (True, h1)"
      "malloc SubstringBlock h1 = (True, h2)" "malloc SubstringBlock h2 = (True, h3)"
      "\<not> size_wd wd > MAX_WINDOW_VALUE" "negated wd = 0 \<or> negated wd = 1"
      "DetectWindowParse_exit s h = (Inr wd, free SubstringBlock h3)"
proof (cases s rule: pcre_exec_cases)
  case nomatch
  then have e: "DetectWindowParse_exit s h = (Inl RegexNoMatch, h)" by (rule parse_nomatch)
  have "\<not> window_option pcre_space s"
  proof
    assume "window_option pcre_space s"
    then obtain w1 neg w2 digits w3 where *:
      "s = w1 @ neg @ w2 @ digits @ w3 \<and> list_all pcre_space w1 \<and> (neg = [] \<or> neg = ''!'') \<and>
       list_all pcre_space w2 \<and> list_all isdigit digits \<and> 1 \<le> length digits \<and>
       length digits \<le> 9 \<and> list_all pcre_space w3"
      unfolding window_option_def by blast
    then have d: "s = w1 @ neg @ w2 @ digits @ w3" "list_all pcre_space w1" "neg = [] \<or> neg = ''!''"
      "list_all pcre_space w2" "list_all isdigit digits" "digits \<noteq> []" "length digits \<le> 9"
      "list_all pcre_space w3"
      by auto
    note pcre_exec_complete [OF d]
    with nomatch show False
      by (simp add: PCRE_ERROR_NOMATCH_def)
  qed
  then show ?thesis using e by (rule that(1))
next
  case (match w1 neg w2 digits w3)
  have g: "window_option pcre_space s"
    unfolding window_option_def using match(1-8)
    by (intro exI [of _ w1] exI [of _ neg] exI [of _ w2] exI [of _ digits] exI [of _ w3])
       (simp add: Suc_le_eq)
  note p = parse_match [OF match(1,3,9), of h]
  obtain ok1 h1 where m1: "malloc WindowDataBlock h = (ok1, h1)" by (cases "malloc WindowDataBlock h")
  obtain ok2 h2 where m2: "malloc SubstringBlock h1 = (ok2, h2)" by (cases "malloc SubstringBlock h1")
  obtain ok3 h3 where m3: "malloc SubstringBlock h2 = (ok3, h3)" by (cases "malloc SubstringBlock h2")
  show ?thesis
  proof (cases ok1)
    case False
    with p m1 g show ?thesis by (intro that(2) [of h1]) simp_all
  next
    case ok1: True
    show ?thesis
    proof (cases ok2)
      case False
      with p m1 m2 ok1 g show ?thesis by (intro that(3) [of h1 h2]) simp_all
    next
      case ok2: True
      show ?thesis
      proof (cases ok3)
        case False
        with p m1 m2 m3 ok1 ok2 g show ?thesis by (intro that(4) [of h1 h2 h3]) simp_all
      next
        case ok3: True
        define wd where "wd = \<lparr>negated = (if neg = [] then 0 else 1),
                                size_wd = word_of_int (atoi digits)\<rparr>"
        show ?thesis
        proof (cases "size_wd wd > MAX_WINDOW_VALUE")
          case True
          with p m1 m2 m3 ok1 ok2 ok3 g show ?thesis
            by (intro that(5) [of h1 h2 h3]) (simp_all add: wd_def)
        next
          case False
          with p m1 m2 m3 ok1 ok2 ok3 g show ?thesis
            by (intro that(6) [of h1 h2 h3 wd]) (simp_all add: wd_def)
        qed
      qed
    qed
  qed
qed
lemma parse_returns:
  "DetectWindowParse s h =
     (case fst (DetectWindowParse_exit s h) of Inl e \<Rightarrow> None | Inr wd \<Rightarrow> Some wd,
      snd (DetectWindowParse_exit s h))"
  by (simp add: DetectWindowParse_def split: prod.splits sum.splits)

lemma parse_ungrammatical:
  assumes "\<not> window_option pcre_space s"
  shows "DetectWindowParse_exit s h = (Inl RegexNoMatch, h)"
  using assms by (cases s h rule: parse_cases) simp_all

lemma empty_ungrammatical: "\<not> window_option ws []"
  by (simp add: window_option_def)

lemma window_option_matches:
  assumes "window_option pcre_space s"
  shows "fst (pcre_exec s) = 3"
proof -
  from assms obtain w1 neg w2 digits w3 where
    "s = w1 @ neg @ w2 @ digits @ w3 \<and> list_all pcre_space w1 \<and> (neg = [] \<or> neg = ''!'') \<and>
     list_all pcre_space w2 \<and> list_all isdigit digits \<and> 1 \<le> length digits \<and>
     length digits \<le> 9 \<and> list_all pcre_space w3"
    unfolding window_option_def by blast
  then have d: "s = w1 @ neg @ w2 @ digits @ w3" "list_all pcre_space w1" "neg = [] \<or> neg = ''!''"
    "list_all pcre_space w2" "list_all isdigit digits" "digits \<noteq> []" "length digits \<le> 9"
    "list_all pcre_space w3"
    by auto
  show ?thesis unfolding pcre_exec_complete [OF d] by simp
qed

text \<open>The pattern matches exactly the texts of the grammar.\<close>

lemma pcre_exec_matches_iff:
  "fst (pcre_exec s) = 3 \<longleftrightarrow> window_option pcre_space s"
proof
  assume "window_option pcre_space s"
  then show "fst (pcre_exec s) = 3" by (rule window_option_matches)
next
  assume m: "fst (pcre_exec s) = 3"
  show "window_option pcre_space s"
  proof (cases s rule: pcre_exec_cases)
    case nomatch
    with m show ?thesis by (simp add: PCRE_ERROR_NOMATCH_def)
  next
    case (match w1 neg w2 digits w3)
    show ?thesis
      unfolding window_option_def using match(1-8)
      by (intro exI [of _ w1] exI [of _ neg] exI [of _ w2] exI [of _ digits] exI [of _ w3])
         (simp add: Suc_le_eq)
  qed
qed

lemma within_max_iff:
  "\<not> (w :: 32 word) > MAX_WINDOW_VALUE \<longleftrightarrow> unat w \<le> 65535"
  by (simp add: exceeds_max_iff not_less)

lemma window_option_chars:
  assumes "window_option ws s" and "c \<in> set s"
  shows "ws c \<or> c = CHR ''!'' \<or> isdigit c"
  using assms unfolding window_option_def list_all_iff by auto

text \<open>The run on a text of digits only, and on the same text after the mark.\<close>

lemma parse_digits_served:
  assumes "list_all isdigit d" and "1 \<le> length d" and "length d \<le> 9" and "serves 3 h"
  shows "fst (DetectWindowParse_exit d h) =
           (if 65535 < decimal_value d then Inl SizeExceedsMax
            else Inr \<lparr>negated = 0, size_wd = word_of_nat (decimal_value d)\<rparr>)"
    and "fst (DetectWindowParse_exit (CHR ''!'' # d) h) =
           (if 65535 < decimal_value d then Inl SizeExceedsMax
            else Inr \<lparr>negated = 1, size_wd = word_of_nat (decimal_value d)\<rparr>)"
proof -
  have ne: "d \<noteq> []" using assms(2) by auto
  have plain: "d = [] @ [] @ [] @ d @ []" by simp
  have bang: "CHR ''!'' # d = [] @ ''!'' @ [] @ d @ []" by simp
  show "fst (DetectWindowParse_exit d h) =
           (if 65535 < decimal_value d then Inl SizeExceedsMax
            else Inr \<lparr>negated = 0, size_wd = word_of_nat (decimal_value d)\<rparr>)"
    using parse_grammatical_served [OF plain _ _ _ assms(1) ne assms(3) _ assms(4)] by simp
  show "fst (DetectWindowParse_exit (CHR ''!'' # d) h) =
           (if 65535 < decimal_value d then Inl SizeExceedsMax
            else Inr \<lparr>negated = 1, size_wd = word_of_nat (decimal_value d)\<rparr>)"
    using parse_grammatical_served [OF bang _ _ _ assms(1) ne assms(3) _ assms(4)] by simp
qed

text \<open>
  Whatever the allocator does, a text of digits with a value in range leaves through the
  regular return or through a failed allocation, never where the pattern does not match
  nor at the comparison with the maximum.
\<close>

lemma parse_digits_exits:
  assumes "list_all isdigit d" and "1 \<le> length d" and "length d \<le> 9"
    and "decimal_value d \<le> 65535"
  shows "fst (DetectWindowParse_exit d h) \<in>
           {Inr \<lparr>negated = 0, size_wd = word_of_nat (decimal_value d)\<rparr>,
            Inl MallocFailed, Inl SubstringFailed}"
proof -
  have ne: "d \<noteq> []" using assms(2) by auto
  have plain: "d = [] @ [] @ [] @ d @ []" by simp
  have v: "unat (word_of_int (atoi d) :: 32 word) = decimal_value d"
    using assms(1,3) by (rule size_of_digits)
  have small: "\<not> (word_of_int (atoi d) :: 32 word) > MAX_WINDOW_VALUE"
    using assms(4) by (simp add: exceeds_max_iff v)
  have w: "(word_of_int (atoi d) :: 32 word) = word_of_nat (decimal_value d)"
    by (simp add: atoi_digit_string [OF assms(1)])
  show ?thesis
    unfolding parse_grammatical [OF plain _ _ _ assms(1) ne assms(3), simplified]
    using small by (simp add: w split: prod.splits bool.splits)
qed

text \<open>
  The blocks a served call leaves behind: the copy of the digits, which neither exit
  releases, and after the regular return the predicate, which passes to the caller.
\<close>

lemma parse_digits_memory:
  assumes "list_all isdigit d" and "1 \<le> length d" and "length d \<le> 9" and "serves 3 h"
  shows "live (snd (DetectWindowParse_exit d h)) =
           (if 65535 < decimal_value d then add_mset SubstringBlock (live h)
            else add_mset SubstringBlock (add_mset WindowDataBlock (live h)))"
proof -
  have ne: "d \<noteq> []" using assms(2) by auto
  have plain: "d = [] @ [] @ [] @ d @ []" by simp
  from malloc_served [OF assms(4), of WindowDataBlock]
  obtain h1 where m1: "malloc WindowDataBlock h = (True, h1)" and s1: "serves 2 h1" by auto
  from malloc_served [OF s1, of SubstringBlock]
  obtain h2 where m2: "malloc SubstringBlock h1 = (True, h2)" and s2: "serves 1 h2" by auto
  from malloc_served [OF s2, of SubstringBlock]
  obtain h3 where m3: "malloc SubstringBlock h2 = (True, h3)" by auto
  have l: "live h3 = add_mset SubstringBlock (add_mset SubstringBlock (add_mset WindowDataBlock (live h)))"
    using malloc_result(2) [OF m1] malloc_result(2) [OF m2] malloc_result(2) [OF m3] by simp
  have v: "unat (word_of_int (atoi d) :: 32 word) = decimal_value d"
    using assms(1,3) by (rule size_of_digits)
  show ?thesis
    unfolding parse_grammatical [OF plain _ _ _ assms(1) ne assms(3), simplified]
    using v by (simp add: m1 m2 m3 exceeds_max_iff free_def l)
qed

lemma serves_memory0: "serves n memory0"
  by (simp add: serves_def memory0_def)

lemma parse_1235402:
  "fst (DetectWindowParse_exit ''1235402'' memory0) = Inl SizeExceedsMax"
  using parse_digits_served(1) [of "''1235402''" memory0]
  by (simp add: isdigit_def decimal_value_def serves_memory0)

subsection \<open>The runs of DetectWindowSetup\<close>

text \<open>
  A call that does not return 0 returns - 1 and leaves the signature as it was, whether
  the parser or the allocation of the node failed; a call that returns 0 has appended
  one node, of the kind \<open>DETECT_WINDOW\<close>, that carries the predicate of the parser.
\<close>

lemma setup_keeps_signature:
  assumes "fst (DetectWindowSetup de_ctx s m windowstr h) \<noteq> 0"
  shows "fst (DetectWindowSetup de_ctx s m windowstr h) = - 1"
    and "fst (snd (DetectWindowSetup de_ctx s m windowstr h)) = s"
  using assms
  by (auto simp: DetectWindowSetup_def setup_error_def Let_def
           split: prod.splits option.splits)

lemma setup_appends:
  assumes "fst (DetectWindowSetup de_ctx s m windowstr h) = 0"
  shows "\<exists>wd. fst (DetectWindowParse windowstr h) = Some wd \<and>
           match (fst (snd (DetectWindowSetup de_ctx s m windowstr h)))
             = match s @ [\<lparr>type = DETECT_WINDOW, ctx = Some wd\<rparr>]"
  using assms
  by (auto simp: DetectWindowSetup_def setup_error_def Let_def SigMatchAlloc_def SigMatchAppend_def
           split: prod.splits option.splits bool.splits)

section \<open>Properties of the evaluator\<close>

lemma unat_ucast_window:
  "unat (ucast (w :: 16 word) :: 32 word) = unat w"
proof -
  have "unat w < 2 ^ 16" using unsigned_less [of w] by simp
  then have "unat w < 2 ^ 32" by simp
  then show ?thesis by (simp add: unsigned_ucast_eq take_bit_nat_eq_self)
qed

lemma ucast_window_eq:
  "((s :: 32 word) = ucast (w :: 16 word)) \<longleftrightarrow> unat s = unat w"
  by (simp add: word_unat_eq_iff [of s] unat_ucast_window)

text \<open>
  Claim C1. For a node that carries a predicate and a TCP packet with window \<open>w\<close>: when
  the predicate is not negated, \<open>DetectWindowMatch\<close> returns 1 (match) exactly when \<open>w\<close>
  equals the threshold; when it is negated, it returns 1 exactly when \<open>w\<close> differs from the
  threshold. The result is never anything but 0 or 1.
\<close>

theorem DetectWindowMatch_equality_semantics:
  assumes "ctx m = Some wd" and "tcph p = Some h"
  shows "(negated wd = 0 \<longrightarrow>
            (DetectWindowMatch t det_ctx p s m = 1 \<longleftrightarrow> unat (TCP_GET_WINDOW h) = unat (size_wd wd)))
       \<and> (negated wd \<noteq> 0 \<longrightarrow>
            (DetectWindowMatch t det_ctx p s m = 1 \<longleftrightarrow> unat (TCP_GET_WINDOW h) \<noteq> unat (size_wd wd)))
       \<and> DetectWindowMatch t det_ctx p s m \<in> {0, 1}"
  using assms by (auto simp: DetectWindowMatch_def ucast_window_eq)

theorem DetectWindowMatch_equality_semantics_witness:
  "DetectWindowMatch None None \<lparr>tcph = Some \<lparr>th_sport = 80, th_dport = 49335, th_win = 117\<rparr>\<rparr>
      (None :: Signature option) \<lparr>type = DETECT_WINDOW, ctx = Some \<lparr>negated = 0, size_wd = 117\<rparr>\<rparr> = 1
   \<and> DetectWindowMatch None None \<lparr>tcph = Some \<lparr>th_sport = 80, th_dport = 49335, th_win = 117\<rparr>\<rparr>
      (None :: Signature option) \<lparr>type = DETECT_WINDOW, ctx = Some \<lparr>negated = 1, size_wd = 55455\<rparr>\<rparr> = 1"
  using DetectWindowMatch_equality_semantics
          [of "\<lparr>type = DETECT_WINDOW, ctx = Some \<lparr>negated = 0, size_wd = 117\<rparr>\<rparr>"
              "\<lparr>negated = 0, size_wd = 117\<rparr>"
              "\<lparr>tcph = Some \<lparr>th_sport = 80, th_dport = 49335, th_win = 117\<rparr>\<rparr>"
              "\<lparr>th_sport = 80, th_dport = 49335, th_win = 117\<rparr>"
              None None "None :: Signature option"]
        DetectWindowMatch_equality_semantics
          [of "\<lparr>type = DETECT_WINDOW, ctx = Some \<lparr>negated = 1, size_wd = 55455\<rparr>\<rparr>"
              "\<lparr>negated = 1, size_wd = 55455\<rparr>"
              "\<lparr>tcph = Some \<lparr>th_sport = 80, th_dport = 49335, th_win = 117\<rparr>\<rparr>"
              "\<lparr>th_sport = 80, th_dport = 49335, th_win = 117\<rparr>"
              None None "None :: Signature option"]
  by (simp add: TCP_GET_WINDOW_def)

text \<open>
  Claim C2. For a packet that is not TCP, \<open>DetectWindowMatch\<close> returns 0 whatever the node
  carries: a negated predicate does not match traffic that is not TCP.
\<close>

theorem DetectWindowMatch_non_tcp:
  assumes "\<not> PKT_IS_TCP p"
  shows "DetectWindowMatch t det_ctx p s m = 0"
  using assms by (simp add: DetectWindowMatch_def PKT_IS_TCP_def split: option.splits)

theorem DetectWindowMatch_non_tcp_witness:
  "\<not> PKT_IS_TCP \<lparr>tcph = None\<rparr>
   \<and> DetectWindowMatch None None \<lparr>tcph = None\<rparr> (None :: Signature option)
        \<lparr>type = DETECT_WINDOW, ctx = Some \<lparr>negated = 1, size_wd = 55455\<rparr>\<rparr> = 0"
proof -
  have h: "\<not> PKT_IS_TCP \<lparr>tcph = None\<rparr>" by (simp add: PKT_IS_TCP_def)
  show ?thesis using h DetectWindowMatch_non_tcp [OF h] by simp
qed

text \<open>
  Claim C9. For a node whose predicate context is NULL, \<open>DetectWindowMatch\<close> returns 0 for
  every packet, TCP or not.
\<close>

theorem DetectWindowMatch_null_ctx:
  assumes "ctx m = None"
  shows "DetectWindowMatch t det_ctx p s m = 0"
  using assms by (simp add: DetectWindowMatch_def)

theorem DetectWindowMatch_null_ctx_witness:
  "DetectWindowMatch None None \<lparr>tcph = Some \<lparr>th_sport = 80, th_dport = 49335, th_win = 117\<rparr>\<rparr>
     (None :: Signature option) \<lparr>type = DETECT_WINDOW, ctx = None\<rparr> = 0"
  using DetectWindowMatch_null_ctx
          [of "\<lparr>type = DETECT_WINDOW, ctx = None\<rparr>" None None
              "\<lparr>tcph = Some \<lparr>th_sport = 80, th_dport = 49335, th_win = 117\<rparr>\<rparr>"
              "None :: Signature option"]
  by simp

text \<open>
  Claim C10. The result of \<open>DetectWindowMatch\<close> is a function of four values only: the
  negation flag and the threshold of the predicate, whether the packet is TCP, and the
  window of a TCP packet. Two calls that agree on them return the same result, whatever
  thread variables, thread context and signature (NULL or not) they are given, whatever
  else the packets and the nodes hold.
\<close>

theorem DetectWindowMatch_depends_on_four_values:
  assumes "ctx m1 = Some wd1" and "ctx m2 = Some wd2"
    and "negated wd1 = negated wd2" and "size_wd wd1 = size_wd wd2"
    and "PKT_IS_TCP p1 = PKT_IS_TCP p2"
    and "\<And>h1 h2. tcph p1 = Some h1 \<Longrightarrow> tcph p2 = Some h2 \<Longrightarrow> TCP_GET_WINDOW h1 = TCP_GET_WINDOW h2"
  shows "DetectWindowMatch t1 det_ctx1 p1 s1 m1 = DetectWindowMatch t2 det_ctx2 p2 s2 m2"
proof (cases "tcph p1")
  case None
  with assms(5) have "tcph p2 = None" by (simp add: PKT_IS_TCP_def)
  with None assms(1,2) show ?thesis by (simp add: DetectWindowMatch_def)
next
  case (Some h1)
  with assms(5) obtain h2 where h2: "tcph p2 = Some h2" by (auto simp: PKT_IS_TCP_def)
  from assms(6) [OF Some h2] have "TCP_GET_WINDOW h1 = TCP_GET_WINDOW h2" .
  with Some h2 assms(1-4) show ?thesis by (simp add: DetectWindowMatch_def)
qed

theorem DetectWindowMatch_depends_on_four_values_witness:
  "DetectWindowMatch None None
      \<lparr>tcph = Some \<lparr>th_sport = 80, th_dport = 49335, th_win = 117\<rparr>\<rparr>
      (None :: Signature option) \<lparr>type = DETECT_WINDOW, ctx = Some \<lparr>negated = 1, size_wd = 55455\<rparr>\<rparr>
   = DetectWindowMatch None None
      \<lparr>tcph = Some \<lparr>th_sport = 22, th_dport = 1024, th_win = 117\<rparr>\<rparr>
      (Some \<lparr>match = []\<rparr>) \<lparr>type = DETECT_OTHER 7, ctx = Some \<lparr>negated = 1, size_wd = 55455\<rparr>\<rparr>"
  by (rule DetectWindowMatch_depends_on_four_values
            [where ?wd1.0 = "\<lparr>negated = 1, size_wd = 55455\<rparr>"
               and ?wd2.0 = "\<lparr>negated = 1, size_wd = 55455\<rparr>"])
     (auto simp: PKT_IS_TCP_def TCP_GET_WINDOW_def)

section \<open>Properties of the compiler\<close>

text \<open>
  Claim C3. For every string \<open>d\<close> of one to nine decimal digits whose value \<open>v\<close> is at
  most 65535, \<open>DetectWindowParse\<close> on \<open>d\<close> returns a predicate with the flag 0 and the
  threshold \<open>v\<close>, and on \<open>d\<close> after the mark a predicate with the flag 1 and the
  threshold \<open>v\<close>. The only other way the function can leave on such a text is through a
  failed allocation, so the memory is taken to serve the three requests of the call.
\<close>

theorem DetectWindowParse_accepts_valid:
  assumes "list_all isdigit d" and "1 \<le> length d" and "length d \<le> 9"
    and "decimal_value d \<le> 65535" and "serves 3 h"
  shows "fst (DetectWindowParse d h) = Some \<lparr>negated = 0, size_wd = word_of_nat (decimal_value d)\<rparr>
       \<and> fst (DetectWindowParse (CHR ''!'' # d) h)
           = Some \<lparr>negated = 1, size_wd = word_of_nat (decimal_value d)\<rparr>
       \<and> unat (word_of_nat (decimal_value d) :: 32 word) = decimal_value d"
proof -
  note e = parse_digits_served [OF assms(1,2,3,5)]
  have "decimal_value d < 2 ^ 32" using assms(4) by simp
  then have "unat (word_of_nat (decimal_value d) :: 32 word) = decimal_value d"
    by (simp add: unsigned_of_nat take_bit_nat_eq_self)
  then show ?thesis using assms(4) by (simp add: parse_returns e)
qed

theorem DetectWindowParse_accepts_valid_witness:
  "fst (DetectWindowParse ''35402'' memory0) = Some \<lparr>negated = 0, size_wd = 35402\<rparr>
   \<and> fst (DetectWindowParse ''!35402'' memory0) = Some \<lparr>negated = 1, size_wd = 35402\<rparr>"
  using DetectWindowParse_accepts_valid [of "''35402''" memory0]
  by (simp add: isdigit_def decimal_value_def serves_memory0)

text \<open>
  Claim C4. For every string \<open>d\<close> of one to nine decimal digits whose value exceeds 65535,
  \<open>DetectWindowParse\<close> returns NULL, and when no allocation fails before, it leaves at the
  comparison with \<open>MAX_WINDOW_VALUE\<close> (line 170), the out-of-range failure. So it does on
  the text 1235402 of the test \<^verbatim>\<open>DetectWindowTestParse04\<close>.
\<close>

theorem DetectWindowParse_rejects_large:
  assumes "list_all isdigit d" and "1 \<le> length d" and "length d \<le> 9"
    and "65535 < decimal_value d"
  shows "fst (DetectWindowParse d h) = None
       \<and> (serves 3 h \<longrightarrow> fst (DetectWindowParse_exit d h) = Inl SizeExceedsMax)"
proof -
  have ne: "d \<noteq> []" using assms(2) by auto
  have plain: "d = [] @ [] @ [] @ d @ []" by simp
  have v: "unat (word_of_int (atoi d) :: 32 word) = decimal_value d"
    using assms(1,3) by (rule size_of_digits)
  have big: "(word_of_int (atoi d) :: 32 word) > MAX_WINDOW_VALUE"
    using assms(4) by (simp add: exceeds_max_iff v)
  have "\<exists>e. fst (DetectWindowParse_exit d h) = Inl e"
    unfolding parse_grammatical [OF plain _ _ _ assms(1) ne assms(3), simplified]
    using big by (simp split: prod.splits bool.splits)
  then have "fst (DetectWindowParse d h) = None" by (auto simp: parse_returns)
  moreover have "fst (DetectWindowParse_exit d h) = Inl SizeExceedsMax" if "serves 3 h"
    using parse_digits_served(1) [OF assms(1,2,3) that] assms(4) by simp
  ultimately show ?thesis by simp
qed

theorem DetectWindowParse_rejects_large_witness:
  "fst (DetectWindowParse ''1235402'' memory0) = None
   \<and> fst (DetectWindowParse_exit ''1235402'' memory0) = Inl SizeExceedsMax"
  using DetectWindowParse_rejects_large [of "''1235402''" memory0]
  by (simp add: isdigit_def decimal_value_def serves_memory0)

text \<open>
  Claim C5, as stated: every text outside the grammar whose white space is the space
  character alone fails with a syntax error. It is false: a horizontal tab before the
  digit 1 is outside that grammar, and \<open>DetectWindowParse\<close> accepts the text, with the
  threshold 1, because the white space escape of the pattern matches the tab.
\<close>

theorem window_option_space_only_counterexample:
  "\<not> window_option space_only [CHR 0x09, CHR ''1'']
   \<and> fst (DetectWindowParse [CHR 0x09, CHR ''1''] memory0) = Some \<lparr>negated = 0, size_wd = 1\<rparr>"
proof
  show "\<not> window_option space_only [CHR 0x09, CHR ''1'']"
  proof
    assume "window_option space_only [CHR 0x09, CHR ''1'']"
    from window_option_chars [OF this, of "CHR 0x09"] show False
      by (simp add: isdigit_def space_only_def)
  qed
next
  have s: "[CHR 0x09, CHR ''1''] = [CHR 0x09] @ [] @ [] @ ''1'' @ []" by simp
  have "fst (DetectWindowParse_exit [CHR 0x09, CHR ''1''] memory0)
          = (if 65535 < decimal_value ''1'' then Inl SizeExceedsMax
             else Inr \<lparr>negated = (if ([] :: string) = [] then 0 else 1),
                       size_wd = word_of_nat (decimal_value ''1'')\<rparr>)"
    by (rule parse_grammatical_served [OF s])
       (simp_all add: pcre_space_def isdigit_def serves_memory0)
  then have "fst (DetectWindowParse_exit [CHR 0x09, CHR ''1''] memory0)
          = Inr \<lparr>negated = 0, size_wd = 1\<rparr>"
    by (simp add: decimal_value_def)
  then show "fst (DetectWindowParse [CHR 0x09, CHR ''1''] memory0) = Some \<lparr>negated = 0, size_wd = 1\<rparr>"
    by (simp add: parse_returns)
qed

text \<open>
  Claim C5, amended: every text outside the grammar
  \<^verbatim>\<open>window-option := ws* negation? ws* digits ws*\<close>, with \<open>ws\<close> any white space character of
  the pattern (space, horizontal tab, line feed, vertical tab, form feed, carriage
  return), the negation the single mark and one to nine decimal digits, fails with the
  syntax error: \<open>DetectWindowParse\<close> leaves where the pattern does not match (line 130),
  returns NULL and has allocated nothing. The empty text and a run of ten digits are such
  texts.
\<close>

theorem DetectWindowParse_rejects_ungrammatical:
  assumes "\<not> window_option pcre_space s"
  shows "DetectWindowParse_exit s h = (Inl RegexNoMatch, h) \<and> DetectWindowParse s h = (None, h)"
  using parse_ungrammatical [OF assms, of h] by (simp add: parse_returns)

theorem DetectWindowParse_rejects_ungrammatical_witness:
  "\<not> window_option pcre_space '''' \<and> DetectWindowParse '''' memory0 = (None, memory0)
   \<and> \<not> window_option pcre_space ''1234567890''
   \<and> DetectWindowParse ''1234567890'' memory0 = (None, memory0)"
proof -
  have a: "\<not> window_option pcre_space ''''" by (rule empty_ungrammatical)
  have "pcre_exec ''1234567890'' = (PCRE_ERROR_NOMATCH, [])"
    by (simp add: pcre_exec_def pcre_space_def isdigit_def)
  then have b: "\<not> window_option pcre_space ''1234567890''"
    by (auto simp: PCRE_ERROR_NOMATCH_def dest: window_option_matches)
  from a b DetectWindowParse_rejects_ungrammatical [OF a, of memory0]
    DetectWindowParse_rejects_ungrammatical [OF b, of memory0]
  show ?thesis by simp
qed

text \<open>
  Claim C6. Every predicate that \<open>DetectWindowParse\<close> returns has its threshold at most
  \<open>MAX_WINDOW_VALUE\<close>, that is 65535, and its negation flag 0 or 1, whatever the text, the
  allocator and the contents of fresh memory.
\<close>

theorem DetectWindowParse_invariant:
  assumes "DetectWindowParse s h = (Some wd, h')"
  shows "size_wd wd \<le> MAX_WINDOW_VALUE \<and> unat (size_wd wd) \<le> 65535
       \<and> (negated wd = 0 \<or> negated wd = 1)"
  using assms
  by (cases s h rule: parse_cases)
     (auto simp: parse_returns within_max_iff not_less [symmetric])

theorem DetectWindowParse_invariant_witness:
  "size_wd \<lparr>negated = 1, size_wd = 35402\<rparr> \<le> MAX_WINDOW_VALUE
   \<and> unat (size_wd \<lparr>negated = 1, size_wd = 35402\<rparr>) \<le> 65535"
proof -
  have e: "fst (DetectWindowParse_exit ''!35402'' memory0) = Inr \<lparr>negated = 1, size_wd = 35402\<rparr>"
    using parse_digits_served(2) [of "''35402''" memory0]
    by (simp add: isdigit_def decimal_value_def serves_memory0)
  have "DetectWindowParse ''!35402'' memory0
          = (Some \<lparr>negated = 1, size_wd = 35402\<rparr>, snd (DetectWindowParse_exit ''!35402'' memory0))"
    by (simp add: parse_returns e)
  from DetectWindowParse_invariant [OF this] show ?thesis by simp
qed

text \<open>
  Claim C7, as stated: on a failure the caller receives the kind of the error, so that a
  syntax failure and an out-of-range failure can be told apart. It is false: the empty
  text fails where the pattern does not match and the text 1235402 fails at the
  comparison with the maximum, and the caller receives the same value, NULL, for both.
\<close>

theorem DetectWindowParse_error_kinds_counterexample:
  "fst (DetectWindowParse_exit '''' memory0) = Inl RegexNoMatch
   \<and> fst (DetectWindowParse_exit ''1235402'' memory0) = Inl SizeExceedsMax
   \<and> fst (DetectWindowParse '''' memory0) = fst (DetectWindowParse ''1235402'' memory0)"
proof -
  have a: "fst (DetectWindowParse_exit '''' memory0) = Inl RegexNoMatch"
    by (simp add: parse_ungrammatical [OF empty_ungrammatical])
  show ?thesis by (simp add: a parse_1235402 parse_returns)
qed

text \<open>
  Claim C7, amended: on every failure \<open>DetectWindowParse\<close> returns NULL, the same value
  whatever the kind of the failure, and no partial predicate survives the call: as many
  predicates are allocated after the call as before it.
\<close>

theorem DetectWindowParse_failure:
  assumes "DetectWindowParse_exit s h = (Inl e, h')"
  shows "DetectWindowParse s h = (None, h')
       \<and> count (live h') WindowDataBlock = count (live h) WindowDataBlock"
proof -
  have "DetectWindowParse s h = (None, h')" using assms by (simp add: parse_returns)
  moreover have "count (live h') WindowDataBlock = count (live h) WindowDataBlock"
    using assms
    by (cases s h rule: parse_cases)
       (auto simp: free_def dest!: malloc_result(2))
  ultimately show ?thesis by simp
qed

theorem DetectWindowParse_failure_witness:
  "DetectWindowParse ''1235402'' memory0 = (None, snd (DetectWindowParse_exit ''1235402'' memory0))
   \<and> count (live (snd (DetectWindowParse_exit ''1235402'' memory0))) WindowDataBlock = 0"
proof -
  have "DetectWindowParse_exit ''1235402'' memory0
      = (Inl SizeExceedsMax, snd (DetectWindowParse_exit ''1235402'' memory0))"
    using parse_1235402 by (simp add: prod_eq_iff)
  from DetectWindowParse_failure [OF this] show ?thesis by (simp add: memory0_def)
qed

text \<open>
  Claim C8. For every option text on which \<open>DetectWindowParse\<close> fails, \<open>DetectWindowSetup\<close>
  returns - 1 and the signature is the one it was given: no node is appended. It allocates
  and releases nothing after the parser has returned.
\<close>

theorem DetectWindowSetup_failure:
  assumes "fst (DetectWindowParse windowstr h) = None"
  shows "DetectWindowSetup de_ctx s m windowstr h = (- 1, s, snd (DetectWindowParse windowstr h))"
  using assms
  by (cases "DetectWindowParse windowstr h")
     (simp add: DetectWindowSetup_def setup_error_def)

theorem DetectWindowSetup_failure_witness:
  "DetectWindowSetup None \<lparr>match = []\<rparr> None '''' memory0 = (- 1, \<lparr>match = []\<rparr>, memory0)"
proof -
  have p: "DetectWindowParse '''' memory0 = (None, memory0)"
    by (simp add: parse_returns parse_ungrammatical [OF empty_ungrammatical])
  then have "fst (DetectWindowParse '''' memory0) = None" by simp
  from DetectWindowSetup_failure [OF this, where s = "\<lparr>match = []\<rparr>" and de_ctx = None and m = None]
  show ?thesis by (simp add: p)
qed

end
